theory Spec2Isabelle
  imports Main "HOL-Library.Multiset"
begin

section \<open>Values of the host language\<close>

text \<open>
  The components are written in TypeScript and run as JavaScript. A table row is an object
  whose fields hold primitive values, and field names are strings. Numbers are modelled as
  integers plus the value NaN; no property below depends on fractions or infinities.
\<close>

datatype jsval = JUndefined | JNull | JBool bool | JNum int | JNaN | JStr string

text \<open>Truthiness, as tested by \<^verbatim>\<open>||\<close>, \<^verbatim>\<open>&&\<close> and \<^verbatim>\<open>!\<close>.\<close>

fun truthy :: "jsval \<Rightarrow> bool" where
  "truthy JUndefined = False"
| "truthy JNull = False"
| "truthy (JBool b) = b"
| "truthy (JNum n) = (n \<noteq> 0)"
| "truthy JNaN = False"
| "truthy (JStr s) = (s \<noteq> [])"

text \<open>Strict equality \<^verbatim>\<open>===\<close>: equal primitives are equal, except that NaN equals nothing.\<close>

definition strict_eq :: "jsval \<Rightarrow> jsval \<Rightarrow> bool" where
  "strict_eq a b = (a = b \<and> a \<noteq> JNaN)"

text \<open>Strings compare lexicographically by character code; a proper prefix is smaller.\<close>

fun str_lt :: "string \<Rightarrow> string \<Rightarrow> bool" where
  "str_lt [] [] = False"
| "str_lt [] (d # t) = True"
| "str_lt (c # s) [] = False"
| "str_lt (c # s) (d # t) =
     (if (of_char c :: nat) < of_char d then True
      else if (of_char d :: nat) < of_char c then False
      else str_lt s t)"

text \<open>
  The numeric conversion applied by \<^verbatim>\<open><\<close> when the operands are not both strings.
  \<open>None\<close> stands for NaN. How the language parses a string as a number is not part of the
  repository: it is the parameter \<open>s2n\<close>.
\<close>

fun ToNumber :: "(string \<Rightarrow> int option) \<Rightarrow> jsval \<Rightarrow> int option" where
  "ToNumber s2n JUndefined = None"
| "ToNumber s2n JNull = Some 0"
| "ToNumber s2n (JBool b) = Some (if b then 1 else 0)"
| "ToNumber s2n (JNum n) = Some n"
| "ToNumber s2n JNaN = None"
| "ToNumber s2n (JStr s) = s2n s"

fun js_lt :: "(string \<Rightarrow> int option) \<Rightarrow> jsval \<Rightarrow> jsval \<Rightarrow> bool" where
  "js_lt s2n (JStr s) (JStr t) = str_lt s t"
| "js_lt s2n a b =
     (case ToNumber s2n a of
        None \<Rightarrow> False
      | Some x \<Rightarrow> (case ToNumber s2n b of None \<Rightarrow> False | Some y \<Rightarrow> x < y))"

text \<open>
  \<^verbatim>\<open>Array.prototype.sort(compareFn)\<close> belongs to the language, not to the repository. It is a
  stable sort, modelled as an insertion sort: the elements are taken from left to right, and
  each is placed before the first element that the comparator puts strictly after it. Where
  the comparator is a consistent order every stable sort gives this result; where it is not,
  the language leaves the order to the implementation.
\<close>

fun insert_sorted :: "('a \<Rightarrow> 'a \<Rightarrow> int) \<Rightarrow> 'a \<Rightarrow> 'a list \<Rightarrow> 'a list" where
  "insert_sorted cmp x [] = [x]"
| "insert_sorted cmp x (y # ys) =
     (if cmp x y < 0 then x # y # ys else y # insert_sorted cmp x ys)"

definition array_sort :: "('a \<Rightarrow> 'a \<Rightarrow> int) \<Rightarrow> 'a list \<Rightarrow> 'a list" where
  "array_sort cmp xs = foldl (\<lambda>acc x. insert_sorted cmp x acc) [] xs"

section \<open>Rows, columns and arrays\<close>

type_synonym row = "(string \<times> jsval) list"

text \<open>Reading a field, \<^verbatim>\<open>record[key]\<close>: an absent field reads as \<^verbatim>\<open>undefined\<close>.\<close>

definition field :: "row \<Rightarrow> string \<Rightarrow> jsval" where
  "field r k = (case map_of r k of None \<Rightarrow> JUndefined | Some v \<Rightarrow> v)"

record column =
  key :: string
  title :: string
  sortable :: "bool option"

datatype SortDirection = Asc | Desc

datatype rowKey_prop = KeyName string | KeyFn "row \<Rightarrow> jsval"

text \<open>
  Arrays are mutable objects passed by reference: \<^verbatim>\<open>sort\<close> works in place, \<^verbatim>\<open>[...xs]\<close> and
  \<^verbatim>\<open>filter\<close> build a new array. The world holds every array under its address, and the
  arguments the component has passed to the \<^verbatim>\<open>onRowSelect\<close> callback so far.
\<close>

type_synonym addr = nat

record world =
  heap :: "row list list"
  notified :: "addr list"

definition alloc :: "world \<Rightarrow> row list \<Rightarrow> world \<times> addr" where
  "alloc w xs = (w\<lparr>heap := heap w @ [xs]\<rparr>, length (heap w))"

definition array_at :: "world \<Rightarrow> addr \<Rightarrow> row list" where
  "array_at w a = (if a < length (heap w) then heap w ! a else [])"

definition sort_in_place :: "(row \<Rightarrow> row \<Rightarrow> int) \<Rightarrow> world \<Rightarrow> addr \<Rightarrow> world" where
  "sort_in_place cmp w a = w\<lparr>heap := (heap w)[a := array_sort cmp (array_at w a)]\<rparr>"

section \<open>The data table\<close>

record DataTableProps =
  data :: addr
  rowKey :: rowKey_prop
  onRowSelect :: bool

definition default_rowKey :: rowKey_prop where
  "default_rowKey = KeyName ''id''"

record table_state =
  selectedRows :: addr
  sortColumn :: "string option"
  sortDirection :: "SortDirection option"

text \<open>The three \<^verbatim>\<open>useState\<close> calls: an empty selection, no sort column, no direction.\<close>

definition initial_state :: "world \<Rightarrow> world \<times> table_state" where
  "initial_state w =
     (let (w1, a) = alloc w []
      in (w1, \<lparr>selectedRows = a, sortColumn = None, sortDirection = None\<rparr>))"

definition getRowKey :: "rowKey_prop \<Rightarrow> row \<Rightarrow> nat \<Rightarrow> jsval" where
  "getRowKey rk r index =
     (case rk of
        KeyFn f \<Rightarrow> f r
      | KeyName k \<Rightarrow> (if truthy (field r k) then field r k else JNum (int index)))"

text \<open>The comparator handed to \<^verbatim>\<open>sort\<close>.\<close>

definition compare_rows ::
  "(string \<Rightarrow> int option) \<Rightarrow> string \<Rightarrow> SortDirection option \<Rightarrow> row \<Rightarrow> row \<Rightarrow> int" where
  "compare_rows s2n col dir a b =
     (let aValue = field a col; bValue = field b col
      in if strict_eq aValue bValue then 0
         else (let comparison = (if js_lt s2n aValue bValue then - 1 else 1)
               in if dir = Some Asc then comparison else - comparison))"

text \<open>
  \<^verbatim>\<open>sortedData\<close>. The guard \<^verbatim>\<open>!sortColumn || !sortDirection\<close> tests truthiness: it holds for
  \<^verbatim>\<open>null\<close> and for the empty string as well.
\<close>

definition sortedData ::
  "(string \<Rightarrow> int option) \<Rightarrow> DataTableProps \<Rightarrow> world \<Rightarrow> table_state \<Rightarrow> world \<times> addr" where
  "sortedData s2n p w s =
     (case sortColumn s of
        None \<Rightarrow> (w, data p)
      | Some col \<Rightarrow>
          if col = [] \<or> sortDirection s = None then (w, data p)
          else (let (w1, a) = alloc w (array_at w (data p))
                in (sort_in_place (compare_rows s2n col (sortDirection s)) w1 a, a)))"

definition handleSort :: "column \<Rightarrow> table_state \<Rightarrow> table_state" where
  "handleSort c s =
     (if sortable c \<noteq> Some True then s
      else if sortColumn s = Some (key c) then
        (if sortDirection s = Some Asc then s\<lparr>sortDirection := Some Desc\<rparr>
         else if sortDirection s = Some Desc then s\<lparr>sortDirection := None, sortColumn := None\<rparr>
         else s\<lparr>sortDirection := Some Asc\<rparr>)
      else s\<lparr>sortColumn := Some (key c), sortDirection := Some Asc\<rparr>)"

text \<open>\<^verbatim>\<open>setSelectedRows(rows); onRowSelect?.(rows)\<close>, shared by the two selection handlers.\<close>

definition publish :: "DataTableProps \<Rightarrow> world \<Rightarrow> table_state \<Rightarrow> addr \<Rightarrow> world \<times> table_state" where
  "publish p w s a =
     ((if onRowSelect p then w\<lparr>notified := notified w @ [a]\<rparr> else w), s\<lparr>selectedRows := a\<rparr>)"

definition handleRowSelect ::
  "DataTableProps \<Rightarrow> world \<Rightarrow> table_state \<Rightarrow> row \<Rightarrow> bool \<Rightarrow> world \<times> table_state" where
  "handleRowSelect p w s r checked =
     (let (w1, newSelectedRows) =
            (if checked then alloc w (array_at w (selectedRows s) @ [r])
             else alloc w (filter
                    (\<lambda>x. \<not> strict_eq (getRowKey (rowKey p) x 0) (getRowKey (rowKey p) r 0))
                    (array_at w (selectedRows s))))
      in publish p w1 s newSelectedRows)"

text \<open>\<open>view\<close> is the array \<^verbatim>\<open>sortedData\<close> of the current render.\<close>

definition handleSelectAll ::
  "DataTableProps \<Rightarrow> world \<Rightarrow> table_state \<Rightarrow> addr \<Rightarrow> bool \<Rightarrow> world \<times> table_state" where
  "handleSelectAll p w s view checked =
     (let (w1, newSelectedRows) = alloc w (if checked then array_at w view else [])
      in publish p w1 s newSelectedRows)"

definition isRowSelected :: "DataTableProps \<Rightarrow> world \<Rightarrow> table_state \<Rightarrow> row \<Rightarrow> bool" where
  "isRowSelected p w s r =
     list_ex (\<lambda>x. strict_eq (getRowKey (rowKey p) x 0) (getRowKey (rowKey p) r 0))
       (array_at w (selectedRows s))"

definition isAllSelected :: "world \<Rightarrow> table_state \<Rightarrow> addr \<Rightarrow> bool" where
  "isAllSelected w s view =
     (length (array_at w view) > 0 \<and>
      length (array_at w (selectedRows s)) = length (array_at w view))"

definition isIndeterminate :: "world \<Rightarrow> table_state \<Rightarrow> addr \<Rightarrow> bool" where
  "isIndeterminate w s view =
     (length (array_at w (selectedRows s)) > 0 \<and>
      length (array_at w (selectedRows s)) < length (array_at w view))"

text \<open>
  A header activation followed by the render it causes, which recomputes \<^verbatim>\<open>sortedData\<close>.
\<close>

definition resort ::
  "(string \<Rightarrow> int option) \<Rightarrow> DataTableProps \<Rightarrow> world \<times> table_state \<Rightarrow> column \<Rightarrow> world \<times> table_state" where
  "resort s2n p ws c =
     (let s' = handleSort c (snd ws) in (fst (sortedData s2n p (fst ws) s'), s'))"

section \<open>The input field\<close>

datatype input_type = TypeText | TypePassword | TypeEmail | TypeNumber

record InputFieldProps =
  value_prop :: string
  disabled :: bool
  invalid :: bool
  loading :: bool
  type_prop :: input_type
  clearable :: bool
  passwordToggle :: bool

datatype affordance = LoadingSpinner | ClearButton | PasswordToggle

text \<open>
  The children of the button container. \<^verbatim>\<open>c && e\<close> renders \<open>e\<close> when \<open>c\<close> is truthy and
  nothing otherwise; the string \<^verbatim>\<open>value\<close> is truthy when it is not empty.
\<close>

definition buttonContainer :: "InputFieldProps \<Rightarrow> affordance list" where
  "buttonContainer p =
     (if loading p then [LoadingSpinner] else []) @
     (if clearable p \<and> value_prop p \<noteq> [] \<and> \<not> disabled p \<and> \<not> loading p
      then [ClearButton] else []) @
     (if (passwordToggle p \<or> type_prop p = TypePassword) \<and> \<not> disabled p \<and> \<not> loading p
      then [PasswordToggle] else [])"

definition actualInputType :: "InputFieldProps \<Rightarrow> bool \<Rightarrow> input_type" where
  "actualInputType p showPassword =
     (if type_prop p = TypePassword \<and> showPassword then TypeText else type_prop p)"

section \<open>Notions used in the properties\<close>

text \<open>
  A column is comparable on an array when its values there are all numbers other than NaN, or
  all strings: the values on which \<^verbatim>\<open><\<close> is a total order.
\<close>

fun is_num :: "jsval \<Rightarrow> bool" where
  "is_num (JNum n) = True"
| "is_num v = False"

fun is_str :: "jsval \<Rightarrow> bool" where
  "is_str (JStr t) = True"
| "is_str v = False"

definition comparable_column :: "string \<Rightarrow> row list \<Rightarrow> bool" where
  "comparable_column col xs =
     (list_all (\<lambda>r. is_num (field r col)) xs \<or> list_all (\<lambda>r. is_str (field r col)) xs)"

text \<open>
  An array is ordered by a column: ascending, no row is followed by one with a smaller value;
  descending, no row is followed by one with a greater value.
\<close>

definition ordered_by ::
  "(string \<Rightarrow> int option) \<Rightarrow> string \<Rightarrow> SortDirection \<Rightarrow> row list \<Rightarrow> bool" where
  "ordered_by s2n col d xs =
     sorted_wrt (\<lambda>a b. if d = Asc then \<not> js_lt s2n (field b col) (field a col)
                        else \<not> js_lt s2n (field a col) (field b col)) xs"

text \<open>The comparator is a strict order on a set of rows: asymmetric and transitive.\<close>

definition strict_on :: "'a set \<Rightarrow> ('a \<Rightarrow> 'a \<Rightarrow> int) \<Rightarrow> bool" where
  "strict_on A cmp \<longleftrightarrow>
     (\<forall>a\<in>A. \<forall>b\<in>A. cmp a b < 0 \<longrightarrow> \<not> cmp b a < 0) \<and>
     (\<forall>a\<in>A. \<forall>b\<in>A. \<forall>c\<in>A. cmp a b < 0 \<longrightarrow> cmp b c < 0 \<longrightarrow> cmp a c < 0)"

text \<open>A conversion under which no string denotes a number, for examples without strings.\<close>

definition no_number :: "string \<Rightarrow> int option" where
  "no_number t = None"

text \<open>
  The sorted view is a new array ordered by the column, and the array \<open>data\<close> is as before.
\<close>

definition new_sorted_view ::
  "(string \<Rightarrow> int option) \<Rightarrow> DataTableProps \<Rightarrow> world \<Rightarrow> table_state \<Rightarrow> string \<Rightarrow> SortDirection \<Rightarrow> bool" where
  "new_sorted_view s2n p w s col d =
     (let (w', view) = sortedData s2n p w s
      in view \<noteq> data p \<and> array_at w' (data p) = array_at w (data p)
         \<and> ordered_by s2n col d (array_at w' view))"

text \<open>
  Some selected row resolves to the same key as the row \<open>r\<close>, both keys taken from
  \<open>getRowKey\<close> at index 0, where the selection test takes them.
\<close>

definition same_key_selected :: "DataTableProps \<Rightarrow> world \<Rightarrow> table_state \<Rightarrow> row \<Rightarrow> bool" where
  "same_key_selected p w s r =
     (\<exists>x \<in> set (array_at w (selectedRows s)).
        getRowKey (rowKey p) x 0 = getRowKey (rowKey p) r 0)"

text \<open>A key function, \<^verbatim>\<open>(record) => record.score\<close>, for examples.\<close>

definition key_of_score :: "row \<Rightarrow> jsval" where
  "key_of_score r = field r ''score''"

section \<open>Properties\<close>

subsection \<open>Arrays and the selection handlers\<close>

lemma alloc_addr: "snd (alloc w xs) = length (heap w)"
  by (simp add: alloc_def)

lemma alloc_heap: "heap (fst (alloc w xs)) = heap w @ [xs]"
  by (simp add: alloc_def)

lemma alloc_notified: "notified (fst (alloc w xs)) = notified w"
  by (simp add: alloc_def)

lemma array_at_alloc_new: "array_at (fst (alloc w xs)) (snd (alloc w xs)) = xs"
  by (simp add: array_at_def alloc_heap alloc_addr)

lemma array_at_alloc_old:
  "b < length (heap w) \<Longrightarrow> array_at (fst (alloc w xs)) b = array_at w b"
  by (simp add: array_at_def alloc_heap nth_append)

lemma publish_heap: "heap (fst (publish p w s a)) = heap w"
  by (simp add: publish_def)

lemma publish_array_at: "array_at (fst (publish p w s a)) b = array_at w b"
  by (simp add: array_at_def publish_heap)

lemma publish_selectedRows: "selectedRows (snd (publish p w s a)) = a"
  by (simp add: publish_def)

lemma handleRowSelect_check:
  "array_at (fst (handleRowSelect p w s r True)) (selectedRows (snd (handleRowSelect p w s r True)))
     = array_at w (selectedRows s) @ [r]"
  by (simp add: handleRowSelect_def split_beta publish_array_at publish_selectedRows
      array_at_alloc_new)

lemma handleRowSelect_uncheck:
  "array_at (fst (handleRowSelect p w s r False)) (selectedRows (snd (handleRowSelect p w s r False)))
     = filter (\<lambda>x. \<not> strict_eq (getRowKey (rowKey p) x 0) (getRowKey (rowKey p) r 0))
         (array_at w (selectedRows s))"
  by (simp add: handleRowSelect_def split_beta publish_array_at publish_selectedRows
      array_at_alloc_new)

lemma getRowKey_falsy: "\<not> truthy (field r k) \<Longrightarrow> getRowKey (KeyName k) r i = JNum (int i)"
  by (simp add: getRowKey_def)

lemma getRowKey_name_not_NaN: "getRowKey (KeyName k) r i \<noteq> JNaN"
  by (cases "field r k") (simp_all add: getRowKey_def)

lemma handleSelectAll_selected:
  "array_at (fst (handleSelectAll p w s view checked))
      (selectedRows (snd (handleSelectAll p w s view checked)))
     = (if checked then array_at w view else [])"
  by (simp add: handleSelectAll_def split_beta publish_array_at publish_selectedRows
      array_at_alloc_new)

lemma handleSelectAll_addr:
  "selectedRows (snd (handleSelectAll p w s view checked)) = length (heap w)"
  by (simp add: handleSelectAll_def split_beta publish_selectedRows alloc_addr)

lemma handleSelectAll_old:
  "b < length (heap w) \<Longrightarrow> array_at (fst (handleSelectAll p w s view checked)) b = array_at w b"
  by (simp add: handleSelectAll_def split_beta publish_array_at array_at_alloc_old)

subsection \<open>The sort\<close>

lemma mset_insert_sorted: "mset (insert_sorted cmp x ys) = add_mset x (mset ys)"
  by (induction ys) simp_all

lemma set_insert_sorted: "set (insert_sorted cmp x ys) = insert x (set ys)"
  by (induction ys) auto

lemma mset_insertion_fold:
  "mset (foldl (\<lambda>acc x. insert_sorted cmp x acc) acc xs) = mset acc + mset xs"
  by (induction xs arbitrary: acc) (simp_all add: mset_insert_sorted)

lemma mset_array_sort: "mset (array_sort cmp xs) = mset xs"
  by (simp add: array_sort_def mset_insertion_fold)

lemma set_array_sort: "set (array_sort cmp xs) = set xs"
  using mset_array_sort [of cmp xs] by (metis set_mset_mset)

lemma strict_on_subset: "strict_on A cmp \<Longrightarrow> B \<subseteq> A \<Longrightarrow> strict_on B cmp"
  unfolding strict_on_def by blast

lemma sorted_insert_sorted:
  assumes "strict_on (insert x (set ys)) cmp"
    and "sorted_wrt (\<lambda>a b. \<not> cmp b a < 0) ys"
  shows "sorted_wrt (\<lambda>a b. \<not> cmp b a < 0) (insert_sorted cmp x ys)"
  using assms
proof (induction ys)
  case Nil
  then show ?case by simp
next
  case (Cons y ys)
  show ?case
  proof (cases "cmp x y < 0")
    case True
    have "\<not> cmp z x < 0" if "z \<in> set (y # ys)" for z
    proof
      assume zx: "cmp z x < 0"
      have "cmp z y < 0"
        using Cons.prems(1) zx True that unfolding strict_on_def by (meson insertCI list.set_intros(1) set_subset_Cons subsetD)
      moreover have "\<not> cmp z y < 0" if "z \<in> set ys"
        using Cons.prems(2) that by simp
      moreover have "\<not> cmp y y < 0"
        using Cons.prems(1) unfolding strict_on_def by (meson insertCI list.set_intros(1))
      ultimately show False using that by auto
    qed
    with True Cons.prems(2) show ?thesis by simp
  next
    case False
    have "strict_on (insert x (set ys)) cmp"
      by (rule strict_on_subset [OF Cons.prems(1)]) auto
    moreover have "sorted_wrt (\<lambda>a b. \<not> cmp b a < 0) ys"
      using Cons.prems(2) by simp
    ultimately have "sorted_wrt (\<lambda>a b. \<not> cmp b a < 0) (insert_sorted cmp x ys)"
      by (rule Cons.IH)
    with False Cons.prems(2) show ?thesis
      by (auto simp: set_insert_sorted)
  qed
qed

lemma sorted_insertion_fold:
  assumes "strict_on (set acc \<union> set xs) cmp"
    and "sorted_wrt (\<lambda>a b. \<not> cmp b a < 0) acc"
  shows "sorted_wrt (\<lambda>a b. \<not> cmp b a < 0) (foldl (\<lambda>acc x. insert_sorted cmp x acc) acc xs)"
  using assms
proof (induction xs arbitrary: acc)
  case Nil
  then show ?case by simp
next
  case (Cons x xs)
  have "sorted_wrt (\<lambda>a b. \<not> cmp b a < 0) (insert_sorted cmp x acc)"
    by (rule sorted_insert_sorted [OF strict_on_subset [OF Cons.prems(1)] Cons.prems(2)]) auto
  moreover have "strict_on (set (insert_sorted cmp x acc) \<union> set xs) cmp"
    by (rule strict_on_subset [OF Cons.prems(1)]) (auto simp: set_insert_sorted)
  ultimately show ?case
    using Cons.IH [of "insert_sorted cmp x acc"] by simp
qed

lemma sorted_array_sort:
  "strict_on (set xs) cmp \<Longrightarrow> sorted_wrt (\<lambda>a b. \<not> cmp b a < 0) (array_sort cmp xs)"
  unfolding array_sort_def by (rule sorted_insertion_fold) simp_all


subsection \<open>String order\<close>

lemma str_lt_irrefl: "\<not> str_lt s s"
  by (induction s) simp_all

lemma str_lt_trans: "str_lt s t \<Longrightarrow> str_lt t u \<Longrightarrow> str_lt s u"
proof (induction s t arbitrary: u rule: str_lt.induct)
  case 1
  then show ?case by simp
next
  case (2 d t)
  then show ?case by (cases u) (simp_all split: if_splits)
next
  case (3 c s)
  then show ?case by simp
next
  case (4 c s d t)
  show ?case
  proof (cases u)
    case Nil
    with 4 show ?thesis by simp
  next
    case (Cons e v)
    with "4.prems" "4.IH" [of v] show ?thesis
      by (auto split: if_splits)
  qed
qed

lemma str_lt_asym: "str_lt s t \<Longrightarrow> \<not> str_lt t s"
  using str_lt_trans str_lt_irrefl by blast

lemma str_lt_total: "s \<noteq> t \<Longrightarrow> str_lt s t \<or> str_lt t s"
proof (induction s t rule: str_lt.induct)
  case (4 c s d t)
  then show ?case
    by (cases "(of_char c :: nat) = of_char d") auto
qed simp_all

subsection \<open>The comparator on a comparable column\<close>

lemma js_lt_num: "js_lt s2n (JNum x) (JNum y) = (x < y)"
  by simp

lemma compare_rows_num:
  assumes "field a col = JNum x" and "field b col = JNum y"
  shows "compare_rows s2n col (Some d) a b < 0 \<longleftrightarrow> (if d = Asc then x < y else y < x)"
  using assms by (cases d) (auto simp: compare_rows_def strict_eq_def)

lemma compare_rows_str:
  assumes "field a col = JStr x" and "field b col = JStr y"
  shows "compare_rows s2n col (Some d) a b < 0 \<longleftrightarrow> (if d = Asc then str_lt x y else str_lt y x)"
  using assms str_lt_total [of x y] str_lt_irrefl [of x] str_lt_asym [of x y]
  by (cases d) (auto simp: compare_rows_def strict_eq_def)

lemma is_num_iff: "is_num v \<longleftrightarrow> (\<exists>n. v = JNum n)"
  by (cases v) simp_all

lemma is_str_iff: "is_str v \<longleftrightarrow> (\<exists>t. v = JStr t)"
  by (cases v) simp_all

lemma num_field: "\<forall>r\<in>A. is_num (field r col) \<Longrightarrow> a \<in> A \<Longrightarrow> \<exists>x. field a col = JNum x"
  by (simp add: is_num_iff)

lemma str_field: "\<forall>r\<in>A. is_str (field r col) \<Longrightarrow> a \<in> A \<Longrightarrow> \<exists>x. field a col = JStr x"
  by (simp add: is_str_iff)

lemma strict_on_num:
  assumes "\<forall>r\<in>A. is_num (field r col)"
  shows "strict_on A (compare_rows s2n col (Some d))"
  unfolding strict_on_def
proof (intro conjI ballI impI)
  fix a b assume a: "a \<in> A" and b: "b \<in> A" and ab: "compare_rows s2n col (Some d) a b < 0"
  from num_field [OF assms a] num_field [OF assms b]
  obtain x y where f: "field a col = JNum x" "field b col = JNum y"
    by blast
  from ab show "\<not> compare_rows s2n col (Some d) b a < 0"
    by (auto simp: compare_rows_num [OF f] compare_rows_num [OF f(2) f(1)] split: if_splits)
next
  fix a b c assume a: "a \<in> A" and b: "b \<in> A" and c: "c \<in> A"
    and ab: "compare_rows s2n col (Some d) a b < 0" and bc: "compare_rows s2n col (Some d) b c < 0"
  from num_field [OF assms a] num_field [OF assms b] num_field [OF assms c]
  obtain x y z where f: "field a col = JNum x" "field b col = JNum y" "field c col = JNum z"
    by blast
  from ab bc show "compare_rows s2n col (Some d) a c < 0"
    by (auto simp: compare_rows_num [OF f(1) f(2)] compare_rows_num [OF f(2) f(3)]
        compare_rows_num [OF f(1) f(3)] split: if_splits)
qed

lemma strict_on_str:
  assumes "\<forall>r\<in>A. is_str (field r col)"
  shows "strict_on A (compare_rows s2n col (Some d))"
  unfolding strict_on_def
proof (intro conjI ballI impI)
  fix a b assume a: "a \<in> A" and b: "b \<in> A" and ab: "compare_rows s2n col (Some d) a b < 0"
  from str_field [OF assms a] str_field [OF assms b]
  obtain x y where f: "field a col = JStr x" "field b col = JStr y"
    by blast
  from ab show "\<not> compare_rows s2n col (Some d) b a < 0"
    using str_lt_asym [of x y] str_lt_asym [of y x]
    by (auto simp: compare_rows_str [OF f] compare_rows_str [OF f(2) f(1)] split: if_splits)
next
  fix a b c assume a: "a \<in> A" and b: "b \<in> A" and c: "c \<in> A"
    and ab: "compare_rows s2n col (Some d) a b < 0" and bc: "compare_rows s2n col (Some d) b c < 0"
  from str_field [OF assms a] str_field [OF assms b] str_field [OF assms c]
  obtain x y z where f: "field a col = JStr x" "field b col = JStr y" "field c col = JStr z"
    by blast
  from ab bc show "compare_rows s2n col (Some d) a c < 0"
    using str_lt_trans [of x y z] str_lt_trans [of z y x]
    by (auto simp: compare_rows_str [OF f(1) f(2)] compare_rows_str [OF f(2) f(3)]
        compare_rows_str [OF f(1) f(3)] split: if_splits)
qed

lemma ordered_by_array_sort:
  assumes "comparable_column col xs"
  shows "ordered_by s2n col d (array_sort (compare_rows s2n col (Some d)) xs)"
proof -
  let ?cmp = "compare_rows s2n col (Some d)"
  let ?ys = "array_sort ?cmp xs"
  from assms consider
    (num) "\<forall>r\<in>set xs. is_num (field r col)" | (str) "\<forall>r\<in>set xs. is_str (field r col)"
    by (auto simp: comparable_column_def list_all_iff)
  then show ?thesis
  proof cases
    case num
    have srt: "sorted_wrt (\<lambda>a b. \<not> ?cmp b a < 0) ?ys"
      by (rule sorted_array_sort [OF strict_on_num [OF num]])
    have rel: "(if d = Asc then \<not> js_lt s2n (field b col) (field a col)
            else \<not> js_lt s2n (field a col) (field b col))"
      if "a \<in> set ?ys" "b \<in> set ?ys" "\<not> ?cmp b a < 0" for a b
    proof -
      from that have "a \<in> set xs" "b \<in> set xs"
        by (simp_all add: set_array_sort)
      from num_field [OF num this(1)] num_field [OF num this(2)]
      obtain x y where f: "field a col = JNum x" "field b col = JNum y"
        by blast
      from that(3) show ?thesis
        by (auto simp: compare_rows_num [OF f(2) f(1)] f split: if_splits)
    qed
    show ?thesis
      unfolding ordered_by_def by (rule sorted_wrt_mono_rel [OF rel srt])
  next
    case str
    have srt: "sorted_wrt (\<lambda>a b. \<not> ?cmp b a < 0) ?ys"
      by (rule sorted_array_sort [OF strict_on_str [OF str]])
    have rel: "(if d = Asc then \<not> js_lt s2n (field b col) (field a col)
            else \<not> js_lt s2n (field a col) (field b col))"
      if "a \<in> set ?ys" "b \<in> set ?ys" "\<not> ?cmp b a < 0" for a b
    proof -
      from that have "a \<in> set xs" "b \<in> set xs"
        by (simp_all add: set_array_sort)
      from str_field [OF str this(1)] str_field [OF str this(2)]
      obtain x y where f: "field a col = JStr x" "field b col = JStr y"
        by blast
      from that(3) show ?thesis
        by (auto simp: compare_rows_str [OF f(2) f(1)] f split: if_splits)
    qed
    show ?thesis
      unfolding ordered_by_def by (rule sorted_wrt_mono_rel [OF rel srt])
  qed
qed

subsection \<open>The sorted view and the frame of a header activation\<close>

lemma sortedData_active:
  assumes "sortColumn s = Some col" and "col \<noteq> []" and "sortDirection s = Some d"
  shows "sortedData s2n p w s =
    (w\<lparr>heap := heap w @ [array_sort (compare_rows s2n col (Some d)) (array_at w (data p))]\<rparr>,
     length (heap w))"
  using assms by (simp add: sortedData_def alloc_def sort_in_place_def array_at_def)

lemma sortedData_heap:
  "\<exists>ys. heap (fst (sortedData s2n p w s)) = heap w @ ys"
  by (auto simp: sortedData_def alloc_def sort_in_place_def array_at_def split: option.split)

lemma sortedData_notified: "notified (fst (sortedData s2n p w s)) = notified w"
  by (auto simp: sortedData_def alloc_def sort_in_place_def split: option.split)

lemma array_at_append: "a < length (heap w) \<Longrightarrow> heap w' = heap w @ ys \<Longrightarrow> array_at w' a = array_at w a"
  by (simp add: array_at_def nth_append)

lemma sortedData_old:
  "a < length (heap w) \<Longrightarrow> array_at (fst (sortedData s2n p w s)) a = array_at w a"
proof -
  assume a: "a < length (heap w)"
  obtain ys where "heap (fst (sortedData s2n p w s)) = heap w @ ys"
    using sortedData_heap [of s2n p w s] by blast
  then show ?thesis by (rule array_at_append [OF a])
qed

lemma sortedData_length: "length (heap w) \<le> length (heap (fst (sortedData s2n p w s)))"
  using sortedData_heap [of s2n p w s] by auto

lemma handleSort_selectedRows: "selectedRows (handleSort c s) = selectedRows s"
  by (simp add: handleSort_def)

lemma resort_frame:
  assumes "selectedRows (snd ws) < length (heap (fst ws))"
  shows "selectedRows (snd (resort s2n p ws c)) = selectedRows (snd ws)
       \<and> selectedRows (snd ws) < length (heap (fst (resort s2n p ws c)))
       \<and> array_at (fst (resort s2n p ws c)) (selectedRows (snd ws))
            = array_at (fst ws) (selectedRows (snd ws))
       \<and> notified (fst (resort s2n p ws c)) = notified (fst ws)"
proof -
  have "selectedRows (snd ws) < length (heap (fst (resort s2n p ws c)))"
    using assms sortedData_length [of "fst ws" s2n p "handleSort c (snd ws)"]
    by (simp add: resort_def Let_def)
  then show ?thesis
    using assms
    by (simp add: resort_def Let_def handleSort_selectedRows sortedData_old sortedData_notified)
qed

lemma resort_all_frame:
  assumes "selectedRows (snd ws) < length (heap (fst ws))"
  shows "selectedRows (snd (foldl (resort s2n p) ws cs)) = selectedRows (snd ws)
       \<and> array_at (fst (foldl (resort s2n p) ws cs)) (selectedRows (snd ws))
            = array_at (fst ws) (selectedRows (snd ws))
       \<and> notified (fst (foldl (resort s2n p) ws cs)) = notified (fst ws)"
  using assms
proof (induction cs arbitrary: ws)
  case Nil
  then show ?case by simp
next
  case (Cons c cs)
  note step = resort_frame [OF Cons.prems, of s2n p c]
  from step have "selectedRows (snd (resort s2n p ws c)) < length (heap (fst (resort s2n p ws c)))"
    by simp
  from Cons.IH [OF this] step show ?case by simp
qed

subsection \<open>Sorting by header activation\<close>

text \<open>
  C1 (sort cycle closure). Starting with no sort column and no direction, activating the header
  of a sortable column \<open>c\<close> gives ascending on \<open>c\<close>, a second activation descending on \<open>c\<close>,
  a third clears the sort, and a fourth gives ascending on \<open>c\<close> again.
\<close>

theorem sort_cycle_closure:
  assumes "sortable c = Some True" and "sortColumn s = None" and "sortDirection s = None"
  shows "handleSort c s = s\<lparr>sortColumn := Some (key c), sortDirection := Some Asc\<rparr>
       \<and> handleSort c (handleSort c s) = s\<lparr>sortColumn := Some (key c), sortDirection := Some Desc\<rparr>
       \<and> handleSort c (handleSort c (handleSort c s)) = s
       \<and> handleSort c (handleSort c (handleSort c (handleSort c s)))
           = s\<lparr>sortColumn := Some (key c), sortDirection := Some Asc\<rparr>"
  using assms by (simp add: handleSort_def)

theorem sort_cycle_closure_witness:
  "handleSort \<lparr>key = ''name'', title = ''Name'', sortable = Some True\<rparr>
      \<lparr>selectedRows = 0, sortColumn = None, sortDirection = None\<rparr>
     = \<lparr>selectedRows = 0, sortColumn = Some ''name'', sortDirection = Some Asc\<rparr>
   \<and> handleSort \<lparr>key = ''name'', title = ''Name'', sortable = Some True\<rparr>
       (handleSort \<lparr>key = ''name'', title = ''Name'', sortable = Some True\<rparr>
         \<lparr>selectedRows = 0, sortColumn = None, sortDirection = None\<rparr>)
     = \<lparr>selectedRows = 0, sortColumn = Some ''name'', sortDirection = Some Desc\<rparr>
   \<and> handleSort \<lparr>key = ''name'', title = ''Name'', sortable = Some True\<rparr>
       (handleSort \<lparr>key = ''name'', title = ''Name'', sortable = Some True\<rparr>
         (handleSort \<lparr>key = ''name'', title = ''Name'', sortable = Some True\<rparr>
           \<lparr>selectedRows = 0, sortColumn = None, sortDirection = None\<rparr>))
     = \<lparr>selectedRows = 0, sortColumn = None, sortDirection = None\<rparr>
   \<and> handleSort \<lparr>key = ''name'', title = ''Name'', sortable = Some True\<rparr>
       (handleSort \<lparr>key = ''name'', title = ''Name'', sortable = Some True\<rparr>
         (handleSort \<lparr>key = ''name'', title = ''Name'', sortable = Some True\<rparr>
           (handleSort \<lparr>key = ''name'', title = ''Name'', sortable = Some True\<rparr>
             \<lparr>selectedRows = 0, sortColumn = None, sortDirection = None\<rparr>)))
     = \<lparr>selectedRows = 0, sortColumn = Some ''name'', sortDirection = Some Asc\<rparr>"
proof -
  have c: "sortable \<lparr>key = ''name'', title = ''Name'', sortable = Some True\<rparr> = Some True"
    by simp
  have n: "sortColumn \<lparr>selectedRows = 0, sortColumn = None, sortDirection = None\<rparr> = None"
    and d: "sortDirection \<lparr>selectedRows = 0, sortColumn = None, sortDirection = None\<rparr> = None"
    by simp_all
  show ?thesis by (rule sort_cycle_closure [OF c n d, simplified])
qed

text \<open>
  C2 (sort-switch reset). While a column \<open>c1\<close> is the sort column, in either direction,
  activating a sortable column \<open>c2\<close> with another key gives ascending on \<open>c2\<close> at once.
\<close>

theorem sort_switch_reset:
  assumes "sortable c2 = Some True" and "key c1 \<noteq> key c2"
    and "sortColumn s = Some (key c1)" and "sortDirection s = Some d"
  shows "handleSort c2 s = s\<lparr>sortColumn := Some (key c2), sortDirection := Some Asc\<rparr>"
  using assms by (simp add: handleSort_def)

theorem sort_switch_reset_witness:
  "handleSort \<lparr>key = ''email'', title = ''Email'', sortable = Some True\<rparr>
      \<lparr>selectedRows = 0, sortColumn = Some ''name'', sortDirection = Some Desc\<rparr>
   = \<lparr>selectedRows = 0, sortColumn = Some ''email'', sortDirection = Some Asc\<rparr>"
  using sort_switch_reset [of "\<lparr>key = ''email'', title = ''Email'', sortable = Some True\<rparr>"
      "\<lparr>key = ''name'', title = ''Name'', sortable = Some True\<rparr>"
      "\<lparr>selectedRows = 0, sortColumn = Some ''name'', sortDirection = Some Desc\<rparr>" Desc]
  by simp

text \<open>
  C4 (passthrough when unsorted). With no sort column or no direction, \<open>sortedData\<close> is the
  array \<open>data\<close> itself, and nothing in the world changes; this is the case again after the
  third activation of a sortable column.
\<close>

theorem unsorted_passthrough:
  "(sortColumn s = None \<or> sortDirection s = None \<longrightarrow> sortedData s2n p w s = (w, data p))
 \<and> (sortable c = Some True \<and> sortColumn s0 = None \<and> sortDirection s0 = None \<longrightarrow>
      sortedData s2n p w (handleSort c (handleSort c (handleSort c s0))) = (w, data p))"
  by (simp add: sortedData_def handleSort_def split: option.split)

theorem unsorted_passthrough_witness:
  "sortedData no_number \<lparr>data = 0, rowKey = default_rowKey, onRowSelect = True\<rparr>
      \<lparr>heap = [[[(''id'', JNum 1), (''name'', JStr ''b'')], [(''id'', JNum 2), (''name'', JStr ''a'')]], []],
       notified = []\<rparr>
      \<lparr>selectedRows = 1, sortColumn = None, sortDirection = None\<rparr>
   = (\<lparr>heap = [[[(''id'', JNum 1), (''name'', JStr ''b'')], [(''id'', JNum 2), (''name'', JStr ''a'')]], []],
       notified = []\<rparr>, 0)
 \<and> sortedData no_number \<lparr>data = 0, rowKey = default_rowKey, onRowSelect = True\<rparr>
      \<lparr>heap = [[[(''id'', JNum 1), (''name'', JStr ''b'')], [(''id'', JNum 2), (''name'', JStr ''a'')]], []],
       notified = []\<rparr>
      (handleSort \<lparr>key = ''name'', title = ''Name'', sortable = Some True\<rparr>
        (handleSort \<lparr>key = ''name'', title = ''Name'', sortable = Some True\<rparr>
          (handleSort \<lparr>key = ''name'', title = ''Name'', sortable = Some True\<rparr>
            \<lparr>selectedRows = 1, sortColumn = None, sortDirection = None\<rparr>)))
   = (\<lparr>heap = [[[(''id'', JNum 1), (''name'', JStr ''b'')], [(''id'', JNum 2), (''name'', JStr ''a'')]], []],
       notified = []\<rparr>, 0)"
  using unsorted_passthrough [of "\<lparr>selectedRows = 1, sortColumn = None, sortDirection = None\<rparr>"
      no_number "\<lparr>data = 0, rowKey = default_rowKey, onRowSelect = True\<rparr>"
      "\<lparr>heap = [[[(''id'', JNum 1), (''name'', JStr ''b'')], [(''id'', JNum 2), (''name'', JStr ''a'')]], []],
       notified = []\<rparr>"
      "\<lparr>key = ''name'', title = ''Name'', sortable = Some True\<rparr>"
      "\<lparr>selectedRows = 1, sortColumn = None, sortDirection = None\<rparr>"] by simp

text \<open>
  C8 (the sorted view is a new array). With a sort column, a non-empty one, and a direction,
  \<open>sortedData\<close> is a newly allocated array; every array that existed, \<open>data\<close> among
  them, keeps its rows in their order; the new array holds the rows of \<open>data\<close>, sorted
  by the comparator; it is ordered by the column when the column is comparable on \<open>data\<close>.
\<close>

theorem sorted_view_is_new:
  assumes "data p < length (heap w)"
    and "sortColumn s = Some col" and "col \<noteq> []" and "sortDirection s = Some d"
    and "sortedData s2n p w s = (w', view)"
  shows "view = length (heap w) \<and> view \<noteq> data p
       \<and> (\<forall>a < length (heap w). array_at w' a = array_at w a)
       \<and> array_at w' (data p) = array_at w (data p)
       \<and> mset (array_at w' view) = mset (array_at w (data p))
       \<and> array_at w' view = array_sort (compare_rows s2n col (Some d)) (array_at w (data p))
       \<and> (comparable_column col (array_at w (data p)) \<longrightarrow>
            ordered_by s2n col d (array_at w' view) \<and> new_sorted_view s2n p w s col d)"
proof -
  let ?ys = "array_sort (compare_rows s2n col (Some d)) (array_at w (data p))"
  from sortedData_active [OF assms(2-4), of s2n p w] assms(5)
  have w': "w' = w\<lparr>heap := heap w @ [?ys]\<rparr>" and v: "view = length (heap w)"
    by simp_all
  have old: "array_at w' a = array_at w a" if "a < length (heap w)" for a
    using that by (simp add: w' array_at_def nth_append)
  have new: "array_at w' view = ?ys"
    by (simp add: w' v array_at_def)
  have perm: "mset (array_at w' view) = mset (array_at w (data p))"
    by (simp add: new mset_array_sort)
  have fresh: "view \<noteq> data p"
    using v assms(1) by simp
  have ord: "ordered_by s2n col d (array_at w' view)"
    if "comparable_column col (array_at w (data p))"
    using that by (simp add: new ordered_by_array_sort)
  have "new_sorted_view s2n p w s col d"
    if "comparable_column col (array_at w (data p))"
    using ord [OF that] fresh old [OF assms(1)] by (simp add: new_sorted_view_def assms(5))
  with v fresh old new perm ord assms(1) show ?thesis by simp
qed

theorem sorted_view_is_new_witness:
  "sortedData no_number \<lparr>data = 0, rowKey = default_rowKey, onRowSelect = True\<rparr>
      \<lparr>heap = [[[(''id'', JNum 1), (''name'', JStr ''b'')], [(''id'', JNum 2), (''name'', JStr ''a'')]], []],
       notified = []\<rparr>
      \<lparr>selectedRows = 1, sortColumn = Some ''name'', sortDirection = Some Asc\<rparr>
   = (\<lparr>heap = [[[(''id'', JNum 1), (''name'', JStr ''b'')], [(''id'', JNum 2), (''name'', JStr ''a'')]], [],
               [[(''id'', JNum 2), (''name'', JStr ''a'')], [(''id'', JNum 1), (''name'', JStr ''b'')]]],
       notified = []\<rparr>, 2)
 \<and> new_sorted_view no_number \<lparr>data = 0, rowKey = default_rowKey, onRowSelect = True\<rparr>
      \<lparr>heap = [[[(''id'', JNum 1), (''name'', JStr ''b'')], [(''id'', JNum 2), (''name'', JStr ''a'')]], []],
       notified = []\<rparr>
      \<lparr>selectedRows = 1, sortColumn = Some ''name'', sortDirection = Some Asc\<rparr> ''name'' Asc"
proof -
  let ?p = "\<lparr>data = 0, rowKey = default_rowKey, onRowSelect = True\<rparr>"
  let ?ra = "[(''id'', JNum 1), (''name'', JStr ''b'')]"
  let ?rb = "[(''id'', JNum 2), (''name'', JStr ''a'')]"
  let ?w = "\<lparr>heap = [[?ra, ?rb], []], notified = []\<rparr>"
  let ?s = "\<lparr>selectedRows = 1, sortColumn = Some ''name'', sortDirection = Some Asc\<rparr>"
  let ?wv = "\<lparr>heap = [[?ra, ?rb], [], [?rb, ?ra]], notified = []\<rparr>"
  have d: "data ?p < length (heap ?w)" by simp
  have c: "sortColumn ?s = Some ''name''" and n: "''name'' \<noteq> []"
    and dir: "sortDirection ?s = Some Asc" by simp_all
  have v: "sortedData no_number ?p ?w ?s = (?wv, 2)"
    by (simp add: sortedData_def alloc_def sort_in_place_def array_at_def array_sort_def
        compare_rows_def field_def strict_eq_def)
  have cc: "comparable_column ''name'' (array_at ?w (data ?p))"
    by (simp add: comparable_column_def array_at_def field_def)
  from sorted_view_is_new [OF d c n dir v] cc
  have "new_sorted_view no_number ?p ?w ?s ''name'' Asc"
    by simp
  with v show ?thesis by simp
qed

text \<open>
  Without these conditions the view need not be a new ordered array. With the empty string as
  sort column the view is the array \<open>data\<close> itself, not a new one; and where a row lacks the
  sort field
  the comparator is not an order, and the rows \<open>3, -, 5, 2\<close>, sorted descending, come out
  as \<open>5, 2, -, 3\<close>.
\<close>

theorem sorted_view_counterexample:
  "\<not> new_sorted_view no_number \<lparr>data = 0, rowKey = default_rowKey, onRowSelect = True\<rparr>
      \<lparr>heap = [[[(''v'', JNum 1)], [(''v'', JNum 2)]], []], notified = []\<rparr>
      \<lparr>selectedRows = 1, sortColumn = Some [], sortDirection = Some Asc\<rparr> [] Asc
 \<and> \<not> new_sorted_view no_number \<lparr>data = 0, rowKey = default_rowKey, onRowSelect = True\<rparr>
      \<lparr>heap = [[[(''v'', JNum 3)], [(''w'', JNum 0)], [(''v'', JNum 5)], [(''v'', JNum 2)]], []],
       notified = []\<rparr>
      \<lparr>selectedRows = 1, sortColumn = Some ''v'', sortDirection = Some Desc\<rparr> ''v'' Desc"
proof -
  have "sortedData no_number \<lparr>data = 0, rowKey = default_rowKey, onRowSelect = True\<rparr>
      \<lparr>heap = [[[(''v'', JNum 1)], [(''v'', JNum 2)]], []], notified = []\<rparr>
      \<lparr>selectedRows = 1, sortColumn = Some [], sortDirection = Some Asc\<rparr>
    = (\<lparr>heap = [[[(''v'', JNum 1)], [(''v'', JNum 2)]], []], notified = []\<rparr>, 0)"
    by (simp add: sortedData_def)
  then have a: "\<not> new_sorted_view no_number \<lparr>data = 0, rowKey = default_rowKey, onRowSelect = True\<rparr>
      \<lparr>heap = [[[(''v'', JNum 1)], [(''v'', JNum 2)]], []], notified = []\<rparr>
      \<lparr>selectedRows = 1, sortColumn = Some [], sortDirection = Some Asc\<rparr> [] Asc"
    by (simp add: new_sorted_view_def)
  have "sortedData no_number \<lparr>data = 0, rowKey = default_rowKey, onRowSelect = True\<rparr>
      \<lparr>heap = [[[(''v'', JNum 3)], [(''w'', JNum 0)], [(''v'', JNum 5)], [(''v'', JNum 2)]], []],
       notified = []\<rparr>
      \<lparr>selectedRows = 1, sortColumn = Some ''v'', sortDirection = Some Desc\<rparr>
    = (\<lparr>heap = [[[(''v'', JNum 3)], [(''w'', JNum 0)], [(''v'', JNum 5)], [(''v'', JNum 2)]], [],
                [[(''v'', JNum 5)], [(''v'', JNum 2)], [(''w'', JNum 0)], [(''v'', JNum 3)]]],
       notified = []\<rparr>, 2)"
    by (simp add: sortedData_def alloc_def sort_in_place_def array_at_def array_sort_def
        compare_rows_def field_def strict_eq_def)
  then have b: "\<not> new_sorted_view no_number \<lparr>data = 0, rowKey = default_rowKey, onRowSelect = True\<rparr>
      \<lparr>heap = [[[(''v'', JNum 3)], [(''w'', JNum 0)], [(''v'', JNum 5)], [(''v'', JNum 2)]], []],
       notified = []\<rparr>
      \<lparr>selectedRows = 1, sortColumn = Some ''v'', sortDirection = Some Desc\<rparr> ''v'' Desc"
    by (simp add: new_sorted_view_def ordered_by_def array_at_def field_def)
  from a b show ?thesis by simp
qed

subsection \<open>Selection\<close>

text \<open>
  C3 (selection is independent of the sort order). Any sequence of header activations, each
  followed by the recomputation of the sorted view, leaves the selection as it is: the same
  array with the same rows, so every row is selected afterwards exactly if it was before; and
  the selection callback is not called.
\<close>

theorem selection_independent_of_sort:
  assumes "selectedRows s < length (heap w)"
    and "foldl (resort s2n p) (w, s) cs = (w', s')"
  shows "selectedRows s' = selectedRows s
       \<and> array_at w' (selectedRows s') = array_at w (selectedRows s)
       \<and> (\<forall>r. isRowSelected p w' s' r = isRowSelected p w s r)
       \<and> notified w' = notified w"
proof -
  have "selectedRows (snd (w, s)) < length (heap (fst (w, s)))"
    using assms(1) by simp
  from resort_all_frame [OF this, of s2n p cs]
  have a: "selectedRows s' = selectedRows s"
    and b: "array_at w' (selectedRows s) = array_at w (selectedRows s)"
    and c: "notified w' = notified w"
    by (simp_all add: assms(2))
  from a b c show ?thesis by (simp add: isRowSelected_def)
qed

theorem selection_independent_of_sort_witness:
  "foldl (resort no_number \<lparr>data = 0, rowKey = default_rowKey, onRowSelect = True\<rparr>)
      (\<lparr>heap = [[[(''id'', JNum 1)], [(''id'', JNum 2)], [(''id'', JNum 3)]], [[(''id'', JNum 2)]]],
        notified = [1]\<rparr>,
       \<lparr>selectedRows = 1, sortColumn = None, sortDirection = None\<rparr>)
      [\<lparr>key = ''id'', title = ''ID'', sortable = Some True\<rparr>,
       \<lparr>key = ''id'', title = ''ID'', sortable = Some True\<rparr>]
   = (\<lparr>heap = [[[(''id'', JNum 1)], [(''id'', JNum 2)], [(''id'', JNum 3)]], [[(''id'', JNum 2)]],
               [[(''id'', JNum 1)], [(''id'', JNum 2)], [(''id'', JNum 3)]],
               [[(''id'', JNum 3)], [(''id'', JNum 2)], [(''id'', JNum 1)]]],
        notified = [1]\<rparr>,
      \<lparr>selectedRows = 1, sortColumn = Some ''id'', sortDirection = Some Desc\<rparr>)
 \<and> array_at \<lparr>heap = [[[(''id'', JNum 1)], [(''id'', JNum 2)], [(''id'', JNum 3)]], [[(''id'', JNum 2)]],
               [[(''id'', JNum 1)], [(''id'', JNum 2)], [(''id'', JNum 3)]],
               [[(''id'', JNum 3)], [(''id'', JNum 2)], [(''id'', JNum 1)]]],
        notified = [1]\<rparr> 1 = [[(''id'', JNum 2)]]"
proof -
  let ?p = "\<lparr>data = 0, rowKey = default_rowKey, onRowSelect = True\<rparr>"
  let ?ra = "[(''id'', JNum 1)]"
  let ?rb = "[(''id'', JNum 2)]"
  let ?rc = "[(''id'', JNum 3)]"
  let ?w = "\<lparr>heap = [[?ra, ?rb, ?rc], [?rb]], notified = [1]\<rparr>"
  let ?s = "\<lparr>selectedRows = 1, sortColumn = None, sortDirection = None\<rparr>"
  let ?c = "\<lparr>key = ''id'', title = ''ID'', sortable = Some True\<rparr>"
  let ?wv = "\<lparr>heap = [[?ra, ?rb, ?rc], [?rb], [?ra, ?rb, ?rc], [?rc, ?rb, ?ra]], notified = [1]\<rparr>"
  let ?sv = "\<lparr>selectedRows = 1, sortColumn = Some ''id'', sortDirection = Some Desc\<rparr>"
  have v: "selectedRows ?s < length (heap ?w)" by simp
  have f: "foldl (resort no_number ?p) (?w, ?s) [?c, ?c] = (?wv, ?sv)"
    by (simp add: resort_def handleSort_def sortedData_def alloc_def sort_in_place_def
        array_at_def array_sort_def compare_rows_def field_def strict_eq_def)
  from selection_independent_of_sort [OF v f]
  have "array_at ?wv 1 = [?rb]"
    by (simp add: array_at_def)
  with f show ?thesis by simp
qed

text \<open>
  C5 (select all). Checking the header box makes the selection a new array holding the rows of
  the current view, in the same number; unchecking it makes the selection empty, whatever it
  held before.
\<close>

theorem toggle_all_semantics:
  assumes "view < length (heap w)"
    and "handleSelectAll p w s view True = (w1, s1)"
    and "handleSelectAll p w s view False = (w0, s0)"
  shows "array_at w1 (selectedRows s1) = array_at w view
       \<and> length (array_at w1 (selectedRows s1)) = length (array_at w view)
       \<and> selectedRows s1 \<noteq> view
       \<and> array_at w1 view = array_at w view
       \<and> array_at w0 (selectedRows s0) = []"
proof -
  have "array_at (fst (w1, s1)) (selectedRows (snd (w1, s1))) = (if True then array_at w view else [])"
    unfolding assms(2) [symmetric] by (rule handleSelectAll_selected)
  then have copy: "array_at w1 (selectedRows s1) = array_at w view"
    by simp
  have "selectedRows (snd (w1, s1)) = length (heap w)"
    unfolding assms(2) [symmetric] by (rule handleSelectAll_addr)
  then have fresh: "selectedRows s1 \<noteq> view"
    using assms(1) by simp
  have "array_at (fst (w1, s1)) view = array_at w view"
    unfolding assms(2) [symmetric] by (rule handleSelectAll_old [OF assms(1)])
  then have kept: "array_at w1 view = array_at w view"
    by simp
  have "array_at (fst (w0, s0)) (selectedRows (snd (w0, s0))) = (if False then array_at w view else [])"
    unfolding assms(3) [symmetric] by (rule handleSelectAll_selected)
  then have none: "array_at w0 (selectedRows s0) = []"
    by simp
  from copy fresh kept none show ?thesis by simp
qed

theorem toggle_all_semantics_witness:
  "handleSelectAll \<lparr>data = 0, rowKey = default_rowKey, onRowSelect = True\<rparr>
      \<lparr>heap = [[[(''id'', JNum 3)], [(''id'', JNum 1)], [(''id'', JNum 2)]], [[(''id'', JNum 1)]]],
       notified = [1]\<rparr>
      \<lparr>selectedRows = 1, sortColumn = None, sortDirection = None\<rparr> 0 True
     = (\<lparr>heap = [[[(''id'', JNum 3)], [(''id'', JNum 1)], [(''id'', JNum 2)]], [[(''id'', JNum 1)]],
                 [[(''id'', JNum 3)], [(''id'', JNum 1)], [(''id'', JNum 2)]]],
         notified = [1, 2]\<rparr>,
        \<lparr>selectedRows = 2, sortColumn = None, sortDirection = None\<rparr>)
 \<and> handleSelectAll \<lparr>data = 0, rowKey = default_rowKey, onRowSelect = True\<rparr>
      \<lparr>heap = [[[(''id'', JNum 3)], [(''id'', JNum 1)], [(''id'', JNum 2)]], [[(''id'', JNum 1)]]],
       notified = [1]\<rparr>
      \<lparr>selectedRows = 1, sortColumn = None, sortDirection = None\<rparr> 0 False
     = (\<lparr>heap = [[[(''id'', JNum 3)], [(''id'', JNum 1)], [(''id'', JNum 2)]], [[(''id'', JNum 1)]], []],
         notified = [1, 2]\<rparr>,
        \<lparr>selectedRows = 2, sortColumn = None, sortDirection = None\<rparr>)
 \<and> length (array_at
      \<lparr>heap = [[[(''id'', JNum 3)], [(''id'', JNum 1)], [(''id'', JNum 2)]], [[(''id'', JNum 1)]],
                 [[(''id'', JNum 3)], [(''id'', JNum 1)], [(''id'', JNum 2)]]],
         notified = [1, 2]\<rparr> 2) = 3
 \<and> array_at
      \<lparr>heap = [[[(''id'', JNum 3)], [(''id'', JNum 1)], [(''id'', JNum 2)]], [[(''id'', JNum 1)]], []],
         notified = [1, 2]\<rparr> 2 = []"
proof -
  let ?p = "\<lparr>data = 0, rowKey = default_rowKey, onRowSelect = True\<rparr>"
  let ?w = "\<lparr>heap = [[[(''id'', JNum 3)], [(''id'', JNum 1)], [(''id'', JNum 2)]], [[(''id'', JNum 1)]]],
       notified = [1]\<rparr>"
  let ?s = "\<lparr>selectedRows = 1, sortColumn = None, sortDirection = None\<rparr>"
  let ?wt = "\<lparr>heap = [[[(''id'', JNum 3)], [(''id'', JNum 1)], [(''id'', JNum 2)]], [[(''id'', JNum 1)]],
                 [[(''id'', JNum 3)], [(''id'', JNum 1)], [(''id'', JNum 2)]]],
         notified = [1, 2]\<rparr>"
  let ?wf = "\<lparr>heap = [[[(''id'', JNum 3)], [(''id'', JNum 1)], [(''id'', JNum 2)]], [[(''id'', JNum 1)]], []],
         notified = [1, 2]\<rparr>"
  let ?st = "\<lparr>selectedRows = 2, sortColumn = None, sortDirection = None\<rparr>"
  have v: "0 < length (heap ?w)" by simp
  have t: "handleSelectAll ?p ?w ?s 0 True = (?wt, ?st)"
    by (simp add: handleSelectAll_def alloc_def publish_def array_at_def)
  have f: "handleSelectAll ?p ?w ?s 0 False = (?wf, ?st)"
    by (simp add: handleSelectAll_def alloc_def publish_def array_at_def)
  from toggle_all_semantics [OF v t f] have "length (array_at ?wt 2) = 3" and "array_at ?wf 2 = []"
    by (simp_all add: array_at_def)
  with t f show ?thesis by simp
qed

text \<open>
  C6 (the selection test). Where the key selector is a field name, or a key function whose
  value at the row is not NaN, a row counts as selected exactly when some selected row
  resolves to the same key, both keys being resolved by \<open>getRowKey\<close> at index 0.
\<close>

theorem is_selected_contract:
  "(rowKey p = KeyName k \<longrightarrow> (isRowSelected p w s r \<longleftrightarrow> same_key_selected p w s r))
 \<and> (getRowKey (rowKey p) r 0 \<noteq> JNaN \<longrightarrow>
      (isRowSelected p w s r \<longleftrightarrow> same_key_selected p w s r))"
proof -
  have main: "isRowSelected p w s r \<longleftrightarrow> same_key_selected p w s r"
    if "getRowKey (rowKey p) r 0 \<noteq> JNaN"
    using that by (auto simp: isRowSelected_def same_key_selected_def list_ex_iff strict_eq_def)
  have "getRowKey (rowKey p) r 0 \<noteq> JNaN" if "rowKey p = KeyName k"
    using that by (simp add: getRowKey_name_not_NaN)
  with main show ?thesis by blast
qed

theorem is_selected_contract_witness:
  "isRowSelected \<lparr>data = 0, rowKey = default_rowKey, onRowSelect = True\<rparr>
      \<lparr>heap = [[[(''id'', JNum 1)], [(''id'', JNum 2)], [(''id'', JNum 3)]], [[(''id'', JNum 2)]]],
       notified = []\<rparr>
      \<lparr>selectedRows = 1, sortColumn = None, sortDirection = None\<rparr> [(''id'', JNum 2)]
 \<and> \<not> isRowSelected \<lparr>data = 0, rowKey = default_rowKey, onRowSelect = True\<rparr>
      \<lparr>heap = [[[(''id'', JNum 1)], [(''id'', JNum 2)], [(''id'', JNum 3)]], [[(''id'', JNum 2)]]],
       notified = []\<rparr>
      \<lparr>selectedRows = 1, sortColumn = None, sortDirection = None\<rparr> [(''id'', JNum 3)]
 \<and> isRowSelected \<lparr>data = 0, rowKey = KeyFn key_of_score, onRowSelect = True\<rparr>
      \<lparr>heap = [[[(''score'', JNum 7)], [(''score'', JNum 9)]], [[(''score'', JNum 9)]]],
       notified = []\<rparr>
      \<lparr>selectedRows = 1, sortColumn = None, sortDirection = None\<rparr> [(''score'', JNum 9)]"
proof -
  have k: "rowKey \<lparr>data = 0, rowKey = default_rowKey, onRowSelect = True\<rparr> = KeyName ''id''"
    by (simp add: default_rowKey_def)
  have n: "getRowKey (rowKey \<lparr>data = 0, rowKey = KeyFn key_of_score, onRowSelect = True\<rparr>) [(''score'', JNum 9)] 0 \<noteq> JNaN"
    by (simp add: getRowKey_def key_of_score_def field_def)
  have a: "same_key_selected \<lparr>data = 0, rowKey = default_rowKey, onRowSelect = True\<rparr>
      \<lparr>heap = [[[(''id'', JNum 1)], [(''id'', JNum 2)], [(''id'', JNum 3)]], [[(''id'', JNum 2)]]],
       notified = []\<rparr>
      \<lparr>selectedRows = 1, sortColumn = None, sortDirection = None\<rparr> [(''id'', JNum 2)]"
    by (simp add: same_key_selected_def array_at_def getRowKey_def default_rowKey_def field_def)
  have b: "\<not> same_key_selected \<lparr>data = 0, rowKey = default_rowKey, onRowSelect = True\<rparr>
      \<lparr>heap = [[[(''id'', JNum 1)], [(''id'', JNum 2)], [(''id'', JNum 3)]], [[(''id'', JNum 2)]]],
       notified = []\<rparr>
      \<lparr>selectedRows = 1, sortColumn = None, sortDirection = None\<rparr> [(''id'', JNum 3)]"
    by (simp add: same_key_selected_def array_at_def getRowKey_def default_rowKey_def field_def)
  have c: "same_key_selected \<lparr>data = 0, rowKey = KeyFn key_of_score, onRowSelect = True\<rparr>
      \<lparr>heap = [[[(''score'', JNum 7)], [(''score'', JNum 9)]], [[(''score'', JNum 9)]]],
       notified = []\<rparr>
      \<lparr>selectedRows = 1, sortColumn = None, sortDirection = None\<rparr> [(''score'', JNum 9)]"
    by (simp add: same_key_selected_def array_at_def getRowKey_def key_of_score_def field_def)
  from is_selected_contract [of "\<lparr>data = 0, rowKey = default_rowKey, onRowSelect = True\<rparr>" "''id''"
      "\<lparr>heap = [[[(''id'', JNum 1)], [(''id'', JNum 2)], [(''id'', JNum 3)]], [[(''id'', JNum 2)]]],
       notified = []\<rparr>"
      "\<lparr>selectedRows = 1, sortColumn = None, sortDirection = None\<rparr>" "[(''id'', JNum 2)]"] k a
  have x: "isRowSelected \<lparr>data = 0, rowKey = default_rowKey, onRowSelect = True\<rparr>
      \<lparr>heap = [[[(''id'', JNum 1)], [(''id'', JNum 2)], [(''id'', JNum 3)]], [[(''id'', JNum 2)]]],
       notified = []\<rparr>
      \<lparr>selectedRows = 1, sortColumn = None, sortDirection = None\<rparr> [(''id'', JNum 2)]"
    by blast
  from is_selected_contract [of "\<lparr>data = 0, rowKey = default_rowKey, onRowSelect = True\<rparr>" "''id''"
      "\<lparr>heap = [[[(''id'', JNum 1)], [(''id'', JNum 2)], [(''id'', JNum 3)]], [[(''id'', JNum 2)]]],
       notified = []\<rparr>"
      "\<lparr>selectedRows = 1, sortColumn = None, sortDirection = None\<rparr>" "[(''id'', JNum 3)]"] k b
  have y: "\<not> isRowSelected \<lparr>data = 0, rowKey = default_rowKey, onRowSelect = True\<rparr>
      \<lparr>heap = [[[(''id'', JNum 1)], [(''id'', JNum 2)], [(''id'', JNum 3)]], [[(''id'', JNum 2)]]],
       notified = []\<rparr>
      \<lparr>selectedRows = 1, sortColumn = None, sortDirection = None\<rparr> [(''id'', JNum 3)]"
    by blast
  from is_selected_contract [of "\<lparr>data = 0, rowKey = KeyFn key_of_score, onRowSelect = True\<rparr>" k
      "\<lparr>heap = [[[(''score'', JNum 7)], [(''score'', JNum 9)]], [[(''score'', JNum 9)]]],
       notified = []\<rparr>"
      "\<lparr>selectedRows = 1, sortColumn = None, sortDirection = None\<rparr>" "[(''score'', JNum 9)]" for k] n c
  have z: "isRowSelected \<lparr>data = 0, rowKey = KeyFn key_of_score, onRowSelect = True\<rparr>
      \<lparr>heap = [[[(''score'', JNum 7)], [(''score'', JNum 9)]], [[(''score'', JNum 9)]]],
       notified = []\<rparr>
      \<lparr>selectedRows = 1, sortColumn = None, sortDirection = None\<rparr> [(''score'', JNum 9)]"
    by blast
  from x y z show ?thesis by simp
qed

text \<open>
  Without the condition the test can miss a selected row. With the key function
  \<^verbatim>\<open>(record) => record.score\<close> and a row whose score is NaN, the row is in the selection and
  so a selected row resolves to its key, yet the test says it is not selected: NaN is not
  strictly equal to itself.
\<close>

theorem is_selected_counterexample:
  "[(''score'', JNaN)] \<in> set (array_at
      \<lparr>heap = [[[(''score'', JNaN)], [(''score'', JNum 9)]], [[(''score'', JNaN)]]],
       notified = []\<rparr>
      (selectedRows \<lparr>selectedRows = 1, sortColumn = None, sortDirection = None\<rparr>))
 \<and> same_key_selected \<lparr>data = 0, rowKey = KeyFn key_of_score, onRowSelect = True\<rparr>
      \<lparr>heap = [[[(''score'', JNaN)], [(''score'', JNum 9)]], [[(''score'', JNaN)]]],
       notified = []\<rparr>
      \<lparr>selectedRows = 1, sortColumn = None, sortDirection = None\<rparr> [(''score'', JNaN)]
 \<and> \<not> isRowSelected \<lparr>data = 0, rowKey = KeyFn key_of_score, onRowSelect = True\<rparr>
      \<lparr>heap = [[[(''score'', JNaN)], [(''score'', JNum 9)]], [[(''score'', JNaN)]]],
       notified = []\<rparr>
      \<lparr>selectedRows = 1, sortColumn = None, sortDirection = None\<rparr> [(''score'', JNaN)]"
  by (simp add: same_key_selected_def isRowSelected_def array_at_def getRowKey_def
      key_of_score_def field_def strict_eq_def)

text \<open>
  C7 (row-key fallback). With a field name as key selector, the key of a row is the value of
  that field unless the value is falsy (undefined, null, false, 0, NaN or the empty string);
  then it is the index. A row without the field \<open>id\<close>, at index 2, has key 2.
\<close>

theorem row_key_fallback:
  "(field r k \<notin> {JUndefined, JNull, JBool False, JNum 0, JNaN, JStr []}
      \<longrightarrow> getRowKey (KeyName k) r i = field r k)
 \<and> (field r k \<in> {JUndefined, JNull, JBool False, JNum 0, JNaN, JStr []}
      \<longrightarrow> getRowKey (KeyName k) r i = JNum (int i))
 \<and> (map_of r ''id'' = None \<longrightarrow> getRowKey default_rowKey r 2 = JNum 2)"
  by (cases "field r k") (auto simp: getRowKey_def default_rowKey_def field_def)

theorem row_key_fallback_witness:
  "getRowKey default_rowKey [(''id'', JNum 7), (''name'', JStr ''a'')] 2 = JNum 7
 \<and> getRowKey default_rowKey [(''id'', JNum 0), (''name'', JStr ''a'')] 2 = JNum 2
 \<and> getRowKey default_rowKey [(''name'', JStr ''a'')] 2 = JNum 2"
  using row_key_fallback [of "[(''id'', JNum 7), (''name'', JStr ''a'')]" "''id''" 2]
    row_key_fallback [of "[(''id'', JNum 0), (''name'', JStr ''a'')]" "''id''" 2]
    row_key_fallback [of "[(''name'', JStr ''a'')]" "''id''" 2]
  by (simp add: field_def default_rowKey_def)

text \<open>
  C9 (key collision). With a field name as key selector, two rows whose value at that field is
  absent or falsy both have key 0 in the selection test and in removal. After the first is
  checked, the second counts as selected; unchecking the second removes the first.
\<close>

theorem key_collision_aliasing:
  assumes "rowKey p = KeyName k"
    and "\<not> truthy (field r1 k)" and "\<not> truthy (field r2 k)"
    and "handleRowSelect p w s r1 True = (w1, s1)"
    and "handleRowSelect p w1 s1 r2 False = (w2, s2)"
  shows "getRowKey (rowKey p) r1 0 = getRowKey (rowKey p) r2 0
       \<and> getRowKey (rowKey p) r2 0 = JNum 0
       \<and> r1 \<in> set (array_at w1 (selectedRows s1))
       \<and> isRowSelected p w1 s1 r2
       \<and> r1 \<notin> set (array_at w2 (selectedRows s2))"
proof -
  have k1: "getRowKey (rowKey p) r1 0 = JNum 0" and k2: "getRowKey (rowKey p) r2 0 = JNum 0"
    using assms(1-3) by (simp_all add: getRowKey_falsy)
  have "array_at (fst (w1, s1)) (selectedRows (snd (w1, s1))) = array_at w (selectedRows s) @ [r1]"
    unfolding assms(4) [symmetric] by (rule handleRowSelect_check)
  then have sel1: "array_at w1 (selectedRows s1) = array_at w (selectedRows s) @ [r1]"
    by simp
  have "array_at (fst (w2, s2)) (selectedRows (snd (w2, s2))) =
      filter (\<lambda>x. \<not> strict_eq (getRowKey (rowKey p) x 0) (getRowKey (rowKey p) r2 0))
        (array_at w1 (selectedRows s1))"
    unfolding assms(5) [symmetric] by (rule handleRowSelect_uncheck)
  then have sel2: "array_at w2 (selectedRows s2) =
      filter (\<lambda>x. \<not> strict_eq (getRowKey (rowKey p) x 0) (JNum 0))
        (array_at w1 (selectedRows s1))"
    by (simp add: k2)
  have a: "isRowSelected p w1 s1 r2"
    by (simp add: isRowSelected_def sel1 k1 k2 strict_eq_def)
  have b: "r1 \<notin> set (array_at w2 (selectedRows s2))"
    by (simp add: sel2 k1 strict_eq_def)
  have c: "r1 \<in> set (array_at w1 (selectedRows s1))"
    by (simp add: sel1)
  from k1 k2 a b c show ?thesis by simp
qed

theorem key_collision_aliasing_witness:
  "handleRowSelect \<lparr>data = 0, rowKey = default_rowKey, onRowSelect = True\<rparr>
      \<lparr>heap = [[[(''name'', JStr ''a'')], [(''name'', JStr ''b'')]], []], notified = []\<rparr>
      \<lparr>selectedRows = 1, sortColumn = None, sortDirection = None\<rparr> [(''name'', JStr ''a'')] True
     = (\<lparr>heap = [[[(''name'', JStr ''a'')], [(''name'', JStr ''b'')]], [], [[(''name'', JStr ''a'')]]],
         notified = [2]\<rparr>,
        \<lparr>selectedRows = 2, sortColumn = None, sortDirection = None\<rparr>)
 \<and> isRowSelected \<lparr>data = 0, rowKey = default_rowKey, onRowSelect = True\<rparr>
      \<lparr>heap = [[[(''name'', JStr ''a'')], [(''name'', JStr ''b'')]], [], [[(''name'', JStr ''a'')]]],
         notified = [2]\<rparr>
      \<lparr>selectedRows = 2, sortColumn = None, sortDirection = None\<rparr> [(''name'', JStr ''b'')]
 \<and> handleRowSelect \<lparr>data = 0, rowKey = default_rowKey, onRowSelect = True\<rparr>
      \<lparr>heap = [[[(''name'', JStr ''a'')], [(''name'', JStr ''b'')]], [], [[(''name'', JStr ''a'')]]],
         notified = [2]\<rparr>
      \<lparr>selectedRows = 2, sortColumn = None, sortDirection = None\<rparr> [(''name'', JStr ''b'')] False
     = (\<lparr>heap = [[[(''name'', JStr ''a'')], [(''name'', JStr ''b'')]], [], [[(''name'', JStr ''a'')]], []],
         notified = [2, 3]\<rparr>,
        \<lparr>selectedRows = 3, sortColumn = None, sortDirection = None\<rparr>)
 \<and> [(''name'', JStr ''a'')] \<notin> set (array_at
      \<lparr>heap = [[[(''name'', JStr ''a'')], [(''name'', JStr ''b'')]], [], [[(''name'', JStr ''a'')]], []],
         notified = [2, 3]\<rparr> 3)"
proof -
  let ?p = "\<lparr>data = 0, rowKey = default_rowKey, onRowSelect = True\<rparr>"
  let ?a = "[(''name'', JStr ''a'')]"
  let ?b = "[(''name'', JStr ''b'')]"
  let ?w = "\<lparr>heap = [[?a, ?b], []], notified = []\<rparr>"
  let ?s = "\<lparr>selectedRows = 1, sortColumn = None, sortDirection = None\<rparr>"
  let ?wa = "\<lparr>heap = [[?a, ?b], [], [?a]], notified = [2]\<rparr>"
  let ?sa = "\<lparr>selectedRows = 2, sortColumn = None, sortDirection = None\<rparr>"
  let ?wb = "\<lparr>heap = [[?a, ?b], [], [?a], []], notified = [2, 3]\<rparr>"
  let ?sb = "\<lparr>selectedRows = 3, sortColumn = None, sortDirection = None\<rparr>"
  have k: "rowKey ?p = KeyName ''id''" by (simp add: default_rowKey_def)
  have fa: "\<not> truthy (field ?a ''id'')" and fb: "\<not> truthy (field ?b ''id'')"
    by (simp_all add: field_def)
  have h1: "handleRowSelect ?p ?w ?s ?a True = (?wa, ?sa)"
    by (simp add: handleRowSelect_def alloc_def publish_def array_at_def)
  have h2: "handleRowSelect ?p ?wa ?sa ?b False = (?wb, ?sb)"
    by (simp add: handleRowSelect_def alloc_def publish_def array_at_def getRowKey_def
        default_rowKey_def field_def strict_eq_def)
  from key_collision_aliasing [OF k fa fb h1 h2]
  have "isRowSelected ?p ?wa ?sa ?b" and "?a \<notin> set (array_at ?wb 3)"
    by simp_all
  with h1 h2 show ?thesis by simp
qed

subsection \<open>The input field\<close>

text \<open>
  C10 (affordances of the input field). The spinner is shown exactly when the field is loading;
  the clear button exactly when the field is clearable, its value is not empty, and it is
  neither disabled nor loading; the visibility toggle exactly when the toggle is requested or
  the type is password, and the field is neither disabled nor loading.
\<close>

theorem field_state_affordances:
  "(LoadingSpinner \<in> set (buttonContainer p) \<longleftrightarrow> loading p)
 \<and> (ClearButton \<in> set (buttonContainer p) \<longleftrightarrow>
      clearable p \<and> value_prop p \<noteq> [] \<and> \<not> disabled p \<and> \<not> loading p)
 \<and> (PasswordToggle \<in> set (buttonContainer p) \<longleftrightarrow>
      (passwordToggle p \<or> type_prop p = TypePassword) \<and> \<not> disabled p \<and> \<not> loading p)"
  by (simp add: buttonContainer_def)

theorem field_state_affordances_witness:
  "buttonContainer \<lparr>value_prop = ''secret'', disabled = False, invalid = False, loading = False,
      type_prop = TypePassword, clearable = True, passwordToggle = False\<rparr>
     = [ClearButton, PasswordToggle]
 \<and> LoadingSpinner \<in> set (buttonContainer \<lparr>value_prop = ''secret'', disabled = False,
      invalid = False, loading = True, type_prop = TypePassword, clearable = True,
      passwordToggle = False\<rparr>)
 \<and> ClearButton \<notin> set (buttonContainer \<lparr>value_prop = ''secret'', disabled = False,
      invalid = False, loading = True, type_prop = TypePassword, clearable = True,
      passwordToggle = False\<rparr>)
 \<and> PasswordToggle \<notin> set (buttonContainer \<lparr>value_prop = ''secret'', disabled = False,
      invalid = False, loading = True, type_prop = TypePassword, clearable = True,
      passwordToggle = False\<rparr>)"
proof -
  have "buttonContainer \<lparr>value_prop = ''secret'', disabled = False, invalid = False, loading = False,
      type_prop = TypePassword, clearable = True, passwordToggle = False\<rparr>
     = [ClearButton, PasswordToggle]"
    by (simp add: buttonContainer_def)
  then show ?thesis
    using field_state_affordances [of "\<lparr>value_prop = ''secret'', disabled = False,
      invalid = False, loading = True, type_prop = TypePassword, clearable = True,
      passwordToggle = False\<rparr>"]
    by simp
qed

end
